theory Spec2Isabelle
  imports Complex_Main "HOL-Library.Log_Nat"
begin

unbundle bit_operations_syntax

section \<open>Python values used by the FP8 engine\<close>

text \<open>
  The engine (sw/utils/Decoder.py, Adder.py, Multiplier.py and sw/Matmul.py) passes
  bit patterns around as Python strings of the characters 0 and 1, field values as
  unbounded Python integers and decoded values as Python floats.

  Strings are \<^typ>\<open>string\<close>, integers are \<^typ>\<open>int\<close> (bit widths and counts that index
  or repeat strings are \<^typ>\<open>nat\<close>), and an exception is the left summand of a sum.

  A Python float is modelled by \<open>pyfloat\<close>: a rational number for a finite value
  (\<open>Fin 0\<close> is \<open>+0.0\<close>), and one constructor for each of \<open>-0.0\<close>, \<open>+inf\<close>, \<open>-inf\<close>
  and \<open>nan\<close>. Arithmetic on finite values is exact rational arithmetic. This agrees
  with IEEE double arithmetic on every value the engine computes from 8-bit patterns:
  these are dyadic rationals with at most twelve significant bits and exponents between
  \<open>-40\<close> and \<open>40\<close>, on which the additions, multiplications, divisions by powers of two
  and \<open>round\<close> of the source are exact, and on which \<open>math.floor(math.log2(x))\<close> is
  the exact integer part of the binary logarithm.
\<close>

datatype error = ValueError | IndexError | TypeError

datatype pyfloat = Fin rat | NegZero | PosInf | NegInf | NaN

definition bind_err :: "error + 'a \<Rightarrow> ('a \<Rightarrow> error + 'b) \<Rightarrow> error + 'b" where
  "bind_err x f = (case x of Inl e \<Rightarrow> Inl e | Inr v \<Rightarrow> f v)"

text \<open>Unary minus on a float: \<open>-0.0\<close> and \<open>+0.0\<close> are exchanged.\<close>

fun fneg :: "pyfloat \<Rightarrow> pyfloat" where
  "fneg (Fin r) = (if r = 0 then NegZero else Fin (- r))"
| "fneg NegZero = Fin 0"
| "fneg PosInf = NegInf"
| "fneg NegInf = PosInf"
| "fneg NaN = NaN"

text \<open>\<open>2.0 ** e\<close> and \<open>2 ** e\<close> for an integer \<open>e\<close> of either sign.\<close>

definition pow2 :: "int \<Rightarrow> rat" where
  "pow2 e = (if 0 \<le> e then 2 ^ nat e else 1 / 2 ^ nat (- e))"

text \<open>
  \<open>math.floor(math.log2(x))\<close> for \<open>x > 0\<close>: the integer \<open>e\<close> with
  \<open>2 ** e <= x < 2 ** (e + 1)\<close>, computed from the bit length of the integer part
  (of \<open>x\<close>, or of \<open>1 / x\<close> when \<open>x < 1\<close>).
\<close>

definition floor_log2 :: "rat \<Rightarrow> int" where
  "floor_log2 x = (if 1 \<le> x then bitlen \<lfloor>x\<rfloor> - 1 else - bitlen (\<lceil>1 / x\<rceil> - 1))"

text \<open>Python's \<open>round(x)\<close> on a float: to the nearest integer, ties to the even one.\<close>

definition py_round :: "rat \<Rightarrow> int" where
  "py_round x =
     (let f = \<lfloor>x\<rfloor>; d = x - of_int f
      in if d < 1 / 2 then f
         else if 1 / 2 < d then f + 1
         else if even f then f else f + 1)"

subsection \<open>Strings of binary digits\<close>

text \<open>\<open>c * n\<close> for a one-character string \<open>c\<close>.\<close>

definition rep :: "char \<Rightarrow> nat \<Rightarrow> string" where
  "rep c n = replicate n c"

text \<open>
  \<open>int(s, 2)\<close>: the value of a non-empty string of binary digits, most significant
  first, and \<open>ValueError\<close> otherwise. (Python also accepts a sign, a \<open>0b\<close> prefix,
  underscores between digits and surrounding white space; bit patterns never contain
  them, and the model rejects them.)
\<close>

definition is_bit :: "char \<Rightarrow> bool" where
  "is_bit c = (c = CHR ''0'' \<or> c = CHR ''1'')"

definition bit_of :: "char \<Rightarrow> int" where
  "bit_of c = (if c = CHR ''1'' then 1 else 0)"

fun bits_val :: "string \<Rightarrow> int" where
  "bits_val [] = 0"
| "bits_val (c # cs) = bit_of c * 2 ^ length cs + bits_val cs"

definition int_base2 :: "string \<Rightarrow> error + int" where
  "int_base2 s = (if s \<noteq> [] \<and> list_all is_bit s then Inr (bits_val s) else Inl ValueError)"

text \<open>
  \<open>int(c)\<close> for a one-character string (base ten): the digit's value, and
  \<open>ValueError\<close> for any other character.
\<close>

definition int_dec_char :: "char \<Rightarrow> error + int" where
  "int_dec_char c =
     (let n = (of_char c :: nat)
      in if 48 \<le> n \<and> n \<le> 57 then Inr (int n - 48) else Inl ValueError)"

text \<open>\<open>format(n, 'b')\<close> for \<open>n >= 0\<close>: the binary digits of \<open>n\<close>, at least one.\<close>

fun bin_digits :: "nat \<Rightarrow> string" where
  "bin_digits n =
     (if n < 2 then [if n = 0 then CHR ''0'' else CHR ''1'']
      else bin_digits (n div 2) @ [if n mod 2 = 0 then CHR ''0'' else CHR ''1''])"

declare bin_digits.simps [simp del]

text \<open>
  \<open>format(n, f'0{w}b')\<close>: binary digits padded with zeros on the left to width \<open>w\<close>;
  a negative number keeps its minus sign in front of the padding.
\<close>

definition format_bin :: "nat \<Rightarrow> int \<Rightarrow> string" where
  "format_bin w n =
     (if n < 0
      then CHR ''-'' # rep CHR ''0'' (w - 1 - length (bin_digits (nat (- n)))) @ bin_digits (nat (- n))
      else rep CHR ''0'' (w - length (bin_digits (nat n))) @ bin_digits (nat n))"

section \<open>Format table and codec (sw/utils/Decoder.py)\<close>

text \<open>The table \<open>FP8_Codec.FORMATS\<close>: format name to (exponent bits, mantissa bits).\<close>

definition FORMATS :: "(string \<times> nat \<times> nat) list" where
  "FORMATS = [(''e2m5'', 2, 5), (''e3m4'', 3, 4), (''e4m3'', 4, 3), (''e5m2'', 5, 2)]"

text \<open>\<open>FP8_Codec._get_format_params\<close>: raises \<open>ValueError\<close> for a name not in the table.\<close>

definition get_format_params :: "string \<Rightarrow> error + (nat \<times> nat \<times> int)" where
  "get_format_params fp_format =
     (case map_of FORMATS fp_format of
        None \<Rightarrow> Inl ValueError
      | Some (e_bits, m_bits) \<Rightarrow> Inr (e_bits, m_bits, 2 ^ (e_bits - 1) - 1))"

text \<open>
  \<open>FP8_Codec.decode\<close>. The result is the tuple
  (value, unbiased exponent, fraction, significand, flag).
\<close>

definition decode ::
  "int \<Rightarrow> string \<Rightarrow> int option \<Rightarrow> error + (pyfloat \<times> int \<times> rat \<times> pyfloat \<times> string)" where
  "decode input_data fp_format custom_bias =
     (if \<not> (0 \<le> input_data \<and> input_data \<le> 255) then Inl ValueError
      else bind_err (get_format_params fp_format) (\<lambda>(e_bits, m_bits, default_bias).
        let bias = (case custom_bias of None \<Rightarrow> default_bias | Some c \<Rightarrow> c);
            mant_scale = push_bit m_bits (1::int);
            exp_all_ones = push_bit e_bits (1::int) - 1;
            b = input_data AND 255;
            sign = drop_bit (e_bits + m_bits) b AND 1;
            exp_raw = drop_bit m_bits b AND (push_bit e_bits 1 - 1);
            mant = b AND (push_bit m_bits 1 - 1);
            frac = of_int mant / of_int mant_scale
        in Inr
          (if exp_raw = 0 then
             (if mant = 0 then
                (if sign = 1 then NegZero else Fin 0, 1 - bias, frac, Fin 0, ''zero'')
              else
                (let E = 1 - bias; M = frac; val = M * pow2 E
                 in (if sign = 1 then fneg (Fin val) else Fin val, E, frac, Fin M,
                     ''denormalized'')))
           else if exp_raw = exp_all_ones then
             (if mant = 0 then
                (if sign = 1 then NegInf else PosInf, 0, frac, Fin 0, ''infinity'')
              else (NaN, 0, frac, NaN, ''NaN''))
           else
             (let E = exp_raw - bias; M = 1 + frac; val = M * pow2 E
              in (if sign = 1 then fneg (Fin val) else Fin val, E, frac, Fin M,
                  ''normalized'')))))"

text \<open>
  \<open>FP8_Codec.encode\<close>. The special cases come first, in the source's order: NaN,
  infinity, zero (of either sign: \<open>-0.0 == 0\<close> holds in Python). The test \<open>x == 0\<close>
  after \<open>abs\<close> is kept although the zero case has already returned.
\<close>

definition encode :: "pyfloat \<Rightarrow> string \<Rightarrow> error + string" where
  "encode decimal_number fp_format =
     bind_err (get_format_params fp_format) (\<lambda>(e_bits, m_bits, bias).
       let total_bits = 1 + e_bits + m_bits;
           max_exp = push_bit e_bits (1::int) - 1
       in Inr
         (case decimal_number of
            NaN \<Rightarrow> ''0'' @ rep CHR ''1'' e_bits @ ''1'' @ rep CHR ''0'' (m_bits - 1)
          | PosInf \<Rightarrow> ''0'' @ rep CHR ''1'' e_bits @ rep CHR ''0'' m_bits
          | NegInf \<Rightarrow> ''1'' @ rep CHR ''1'' e_bits @ rep CHR ''0'' m_bits
          | NegZero \<Rightarrow> rep CHR ''0'' total_bits
          | Fin r \<Rightarrow>
              if r = 0 then rep CHR ''0'' total_bits
              else
                let sign_bit = (if r < 0 then ''1'' else ''0'');
                    x = \<bar>r\<bar>
                in if x = 0 then sign_bit @ format_bin e_bits 0 @ format_bin m_bits 0
                   else
                     let exp_unbiased = floor_log2 x;
                         exp_raw = exp_unbiased + bias
                     in if max_exp \<le> exp_raw then
                          sign_bit @ rep CHR ''1'' e_bits @ rep CHR ''0'' m_bits
                        else if exp_raw \<le> 0 then
                          (if exp_raw < - (int m_bits - 1) then
                             sign_bit @ rep CHR ''0'' e_bits @ rep CHR ''0'' m_bits
                           else
                             let fraction = x / pow2 (1 - bias);
                                 mant = py_round (fraction * of_int (push_bit m_bits 1))
                             in if push_bit m_bits 1 \<le> mant then
                                  sign_bit @ format_bin e_bits 1 @ format_bin m_bits 0
                                else if mant = 0 then
                                  sign_bit @ rep CHR ''0'' e_bits @ rep CHR ''0'' m_bits
                                else sign_bit @ format_bin e_bits 0 @ format_bin m_bits mant)
                        else
                          (let fraction = x / pow2 exp_unbiased - 1;
                               mant = py_round (fraction * of_int (push_bit m_bits 1))
                           in if mant = push_bit m_bits 1 then
                                (if max_exp \<le> exp_raw + 1 then
                                   sign_bit @ rep CHR ''1'' e_bits @ rep CHR ''0'' m_bits
                                 else sign_bit @ format_bin e_bits (exp_raw + 1)
                                      @ format_bin m_bits 0)
                              else sign_bit @ format_bin e_bits exp_raw @ format_bin m_bits mant)))"

text \<open>\<open>FP8_Codec.encode_to_int\<close>.\<close>

definition encode_to_int :: "pyfloat \<Rightarrow> string \<Rightarrow> error + int" where
  "encode_to_int decimal_number fp_format =
     bind_err (encode decimal_number fp_format) int_base2"

section \<open>Adder (sw/utils/Adder.py)\<close>

text \<open>
  The object built by \<open>Adder(format)\<close>. Record fields carry the class name as a prefix
  (\<open>self.e_bits\<close> is \<open>adder_e_bits self\<close>).
\<close>

record Adder =
  adder_format :: string
  adder_e_bits :: nat
  adder_m_bits :: nat

definition Adder_init :: "string \<Rightarrow> error + Adder" where
  "Adder_init format =
     bind_err (get_format_params format) (\<lambda>(e_bits, m_bits, _).
       Inr \<lparr>adder_format = format, adder_e_bits = e_bits, adder_m_bits = m_bits\<rparr>)"

text \<open>
  The loop of \<open>int_bin_adder\<close> over the reversed longer string \<open>a\<close>; \<open>b\<close> is the
  reversed shorter string from the current index on, so that the bit of \<open>b\<close> is \<open>0\<close>
  once \<open>b\<close> is used up. The result is built least significant bit first.
\<close>

fun ripple :: "string \<Rightarrow> string \<Rightarrow> int \<Rightarrow> string \<Rightarrow> error + (string \<times> int)" where
  "ripple [] b carry result = Inr (result, carry)"
| "ripple (bit_a # a) b carry result =
     bind_err (case b of [] \<Rightarrow> Inr 0 | c # _ \<Rightarrow> int_dec_char c) (\<lambda>b_bit.
     bind_err (int_dec_char bit_a) (\<lambda>a_bit.
       let total = a_bit + b_bit + carry
       in ripple a (tl b) (if 1 < total then 1 else 0)
            (result @ bin_digits (nat (total mod 2)))))"

definition int_bin_adder :: "string \<Rightarrow> string \<Rightarrow> error + string" where
  "int_bin_adder a0 b0 =
     (let (a, b) = (if length a0 < length b0 then (b0, a0) else (a0, b0))
      in bind_err (ripple (rev a) (rev b) 0 []) (\<lambda>(result, carry).
           Inr (rev (if carry = 1 then result @ ''1'' else result))))"

text \<open>The inner function \<open>decode_fields\<close> of \<open>fp_bin_adder\<close>.\<close>

definition decode_fields :: "nat \<Rightarrow> string \<Rightarrow> error + (int \<times> int \<times> int)" where
  "decode_fields EXP_BITS bin_str =
     (case bin_str of
        [] \<Rightarrow> Inl IndexError
      | c # _ \<Rightarrow>
          bind_err (int_base2 (take EXP_BITS (drop 1 bin_str))) (\<lambda>exp_v.
          bind_err (int_base2 (drop (1 + EXP_BITS) bin_str)) (\<lambda>mant.
            Inr (if c = CHR ''1'' then 1 else 0, exp_v, mant))))"

text \<open>\<open>n.bit_length()\<close>.\<close>

definition bit_length :: "int \<Rightarrow> int" where
  "bit_length n = bitlen \<bar>n\<bar>"

text \<open>The loop \<open>while mant_res >= (1 << MANT_BITS): mant_res >>= 1\<close>.\<close>

function clamp_mant :: "nat \<Rightarrow> int \<Rightarrow> int" where
  "clamp_mant MANT_BITS mant_res =
     (if push_bit MANT_BITS 1 \<le> mant_res then clamp_mant MANT_BITS (drop_bit 1 mant_res)
      else mant_res)"
  by pat_completeness auto
termination
proof (relation "measure (\<lambda>(MANT_BITS, mant_res). nat mant_res)")
  show "wf (measure (\<lambda>(MANT_BITS, mant_res). nat mant_res))"
    by simp
next
  fix MANT_BITS :: nat and mant_res :: int
  assume "push_bit MANT_BITS 1 \<le> mant_res"
  then have "1 \<le> mant_res"
    by (smt (verit) push_bit_of_1 one_le_power)
  then show "((MANT_BITS, drop_bit 1 mant_res), (MANT_BITS, mant_res))
      \<in> measure (\<lambda>(MANT_BITS, mant_res). nat mant_res)"
    by (simp add: drop_bit_eq_div)
qed

declare clamp_mant.simps [simp del]

text \<open>
  \<open>Adder.fp_bin_adder\<close>. The part after the special values and the zero shortcuts is
  \<open>fp_add_finite\<close>.
\<close>

definition fp_add_finite ::
  "nat \<Rightarrow> nat \<Rightarrow> int \<times> int \<times> int \<Rightarrow> int \<times> int \<times> int \<Rightarrow> string" where
  "fp_add_finite EXP_BITS MANT_BITS a b =
     (let (sa, ea, ma0) = a; (sb, eb, mb0) = b;
          EXP_ALL_ONES = push_bit EXP_BITS (1::int) - 1;
          ma1 = (if ea \<noteq> 0 then ma0 OR push_bit MANT_BITS 1 else ma0);
          mb1 = (if eb \<noteq> 0 then mb0 OR push_bit MANT_BITS 1 else mb0);
          (ma2, mb2, exp_res0) =
            (if eb < ea then (ma1, drop_bit (nat (ea - eb)) mb1, ea)
             else if ea < eb then (drop_bit (nat (eb - ea)) ma1, mb1, eb)
             else (ma1, mb1, ea));
          ma3 = (if sa \<noteq> 0 then - ma2 else ma2);
          mb3 = (if sb \<noteq> 0 then - mb2 else mb2);
          mant_res0 = ma3 + mb3
      in if mant_res0 = 0 then ''0'' @ rep CHR ''0'' EXP_BITS @ rep CHR ''0'' MANT_BITS
         else
           let sign_res = (if mant_res0 < 0 then 1 else 0 :: int);
               mant_res1 = (if mant_res0 < 0 then - mant_res0 else mant_res0);
               msb_pos = bit_length mant_res1 - 1;
               (mant_res, exp_res) =
                 (if int MANT_BITS < msb_pos then
                    (drop_bit (nat (msb_pos - int MANT_BITS)) mant_res1,
                     exp_res0 + (msb_pos - int MANT_BITS))
                  else if msb_pos < int MANT_BITS \<and> 0 < exp_res0 then
                    (push_bit (nat (int MANT_BITS - msb_pos)) mant_res1,
                     exp_res0 - (int MANT_BITS - msb_pos))
                  else (mant_res1, exp_res0))
           in if EXP_ALL_ONES \<le> exp_res then
                bin_digits (nat sign_res) @ rep CHR ''1'' EXP_BITS @ rep CHR ''0'' MANT_BITS
              else if 0 < exp_res then
                bin_digits (nat sign_res) @ format_bin EXP_BITS exp_res
                  @ format_bin MANT_BITS (mant_res AND (push_bit MANT_BITS 1 - 1))
              else
                bin_digits (nat sign_res) @ rep CHR ''0'' EXP_BITS
                  @ format_bin MANT_BITS (clamp_mant MANT_BITS mant_res))"

definition fp_bin_adder :: "Adder \<Rightarrow> string \<Rightarrow> string \<Rightarrow> error + string" where
  "fp_bin_adder self a_bin b_bin =
     (let EXP_BITS = adder_e_bits self;
          MANT_BITS = adder_m_bits self;
          EXP_ALL_ONES = push_bit EXP_BITS (1::int) - 1;
          is_nan = (\<lambda>e m. e = EXP_ALL_ONES \<and> m \<noteq> 0);
          is_inf = (\<lambda>e m. e = EXP_ALL_ONES \<and> m = 0)
      in bind_err (decode_fields EXP_BITS a_bin) (\<lambda>(sa, ea, ma).
         bind_err (decode_fields EXP_BITS b_bin) (\<lambda>(sb, eb, mb).
           if is_nan ea ma \<or> is_nan eb mb then
             Inr (''0'' @ rep CHR ''1'' EXP_BITS
                  @ (if 0 < MANT_BITS then rep CHR ''0'' (MANT_BITS - 1) @ ''1'' else []))
           else if is_inf ea ma \<and> is_inf eb mb then
             (if sa \<noteq> sb then
                Inr (''0'' @ rep CHR ''1'' EXP_BITS
                     @ (if 0 < MANT_BITS then rep CHR ''0'' (MANT_BITS - 1) @ ''1'' else []))
              else Inr (bin_digits (nat sa) @ rep CHR ''1'' EXP_BITS @ rep CHR ''0'' MANT_BITS))
           else if is_inf ea ma then
             Inr (bin_digits (nat sa) @ rep CHR ''1'' EXP_BITS @ rep CHR ''0'' MANT_BITS)
           else if is_inf eb mb then
             Inr (bin_digits (nat sb) @ rep CHR ''1'' EXP_BITS @ rep CHR ''0'' MANT_BITS)
           else if ea = 0 \<and> ma = 0 then Inr b_bin
           else if eb = 0 \<and> mb = 0 then Inr a_bin
           else Inr (fp_add_finite EXP_BITS MANT_BITS (sa, ea, ma) (sb, eb, mb)))))"

section \<open>Multiplier (sw/utils/Multiplier.py)\<close>

record Multiplier =
  mul_fmt :: string
  mul_exp_bits :: nat
  mul_mant_bits :: nat
  mul_bias :: int
  mul_adder :: Adder
  mul_bin_output :: bool

definition Multiplier_init :: "string \<Rightarrow> bool \<Rightarrow> error + Multiplier" where
  "Multiplier_init format bin_output =
     bind_err (get_format_params format) (\<lambda>(e_bits, m_bits, bias).
     bind_err (Adder_init format) (\<lambda>adder.
       Inr \<lparr>mul_fmt = format, mul_exp_bits = e_bits, mul_mant_bits = m_bits, mul_bias = bias,
            mul_adder = adder, mul_bin_output = bin_output\<rparr>))"

text \<open>
  A product is a float, or the encoded bit string when \<open>bin_output\<close> is set.
\<close>

datatype product = FloatOut pyfloat | BitsOut string

text \<open>\<open>Multiplier._unpakcing\<close>: the sign character, the exponent and mantissa strings.\<close>

definition unpakcing :: "Multiplier \<Rightarrow> string \<Rightarrow> error + (char \<times> string \<times> string)" where
  "unpakcing self v =
     (case v of
        [] \<Rightarrow> Inl IndexError
      | sign # _ \<Rightarrow>
          Inr (sign, take (mul_exp_bits self) (drop 1 v), drop (1 + mul_exp_bits self) v))"

text \<open>
  The loop of \<open>_em_cul\<close> over \<open>range(0, mant_bits)\<close>:
  \<open>m += int(man[i], 2) / (2 ** (i + 1))\<close>.
\<close>

fun em_loop :: "string \<Rightarrow> nat list \<Rightarrow> rat \<Rightarrow> error + rat" where
  "em_loop man [] m = Inr m"
| "em_loop man (i # ixs) m =
     (if length man \<le> i then Inl IndexError
      else bind_err (int_base2 [man ! i]) (\<lambda>d. em_loop man ixs (m + of_int d / 2 ^ (i + 1))))"

text \<open>
  \<open>Multiplier._em_cul\<close>. The exponent string is compared with the string of
  \<open>exp_bits\<close> zeros; the mantissa accumulator starts at \<open>-1\<close> in that case.
\<close>

definition em_cul :: "Multiplier \<Rightarrow> string \<Rightarrow> string \<Rightarrow> error + (int \<times> rat)" where
  "em_cul self exp_s man =
     bind_err
       (if exp_s = format_bin (mul_exp_bits self) 0 then Inr (1 - mul_bias self, - 1)
        else bind_err (int_base2 exp_s) (\<lambda>n. Inr (n - mul_bias self, 0)))
       (\<lambda>(e, m0). bind_err (em_loop man [0..<mul_mant_bits self] m0) (\<lambda>m. Inr (e, m)))"

text \<open>The common last line: return the float, or its encoding.\<close>

definition output_of :: "Multiplier \<Rightarrow> pyfloat \<Rightarrow> error + product" where
  "output_of self v =
     (if \<not> mul_bin_output self then Inr (FloatOut v)
      else bind_err (encode v (mul_fmt self)) (\<lambda>bits. Inr (BitsOut bits)))"

text \<open>\<open>Multiplier.multiply\<close>.\<close>

definition multiply :: "Multiplier \<Rightarrow> string \<Rightarrow> string \<Rightarrow> error + product" where
  "multiply self value_a value_b =
     bind_err (unpakcing self value_a) (\<lambda>(sign1, exp1, man1).
     bind_err (unpakcing self value_b) (\<lambda>(sign2, exp2, man2).
     bind_err (int_dec_char sign1) (\<lambda>s1.
     bind_err (int_dec_char sign2) (\<lambda>s2.
     bind_err (em_cul self exp1 man1) (\<lambda>(x0, x1).
     bind_err (em_cul self exp2 man2) (\<lambda>(y0, y1).
       let sign = s1 XOR s2;
           mul_xy = Fin ((1 + x1 + y1 + x1 * y1) * pow2 (x0 + y0))
       in output_of self (if sign = 1 then fneg mul_xy else mul_xy)))))))"

text \<open>\<open>Multiplier.L_Mul\<close>.\<close>

definition L_Mul :: "Multiplier \<Rightarrow> string \<Rightarrow> string \<Rightarrow> error + product" where
  "L_Mul self value_a value_b =
     bind_err (unpakcing self value_a) (\<lambda>(sign1, exp1, man1).
     bind_err (unpakcing self value_b) (\<lambda>(sign2, exp2, man2).
     bind_err (int_dec_char sign1) (\<lambda>s1.
     bind_err (int_dec_char sign2) (\<lambda>s2.
     bind_err (em_cul self exp1 man1) (\<lambda>(x0, x1).
     bind_err (em_cul self exp2 man2) (\<lambda>(y0, y1).
       let sign = s1 XOR s2;
           lm = (if mul_mant_bits self \<le> 3 then int (mul_mant_bits self)
                 else if mul_mant_bits self = 4 then 3 else 4);
           L_mul_xy = Fin ((1 + x1 + y1 + pow2 (- lm)) * pow2 (x0 + y0))
       in output_of self (if sign = 1 then fneg L_mul_xy else L_mul_xy)))))))"

text \<open>\<open>Multiplier.FASA\<close>.\<close>

definition FASA :: "Multiplier \<Rightarrow> string \<Rightarrow> string \<Rightarrow> error + product" where
  "FASA self value_a value_b =
     bind_err (unpakcing self value_a) (\<lambda>(sign1, exp1, man1).
     bind_err (unpakcing self value_b) (\<lambda>(sign2, exp2, man2).
     bind_err (int_dec_char sign1) (\<lambda>s1.
     bind_err (int_dec_char sign2) (\<lambda>s2.
     bind_err (int_bin_adder (exp1 @ man1) (exp2 @ man2)) (\<lambda>s.
       let sign = s1 XOR s2;
           sum_binary = rep CHR ''0'' (8 - length s) @ s;
           exp_s = take (mul_exp_bits self + 1) sum_binary;
           man = drop (mul_exp_bits self + 1) (take 8 sum_binary)
       in bind_err (em_cul self exp_s man) (\<lambda>(xy0, xy1).
            let L_mul_xy = Fin ((1 + xy1) * pow2 (xy0 - mul_bias self))
            in output_of self (if sign = 1 then fneg L_mul_xy else L_mul_xy)))))))"

section \<open>MAC unit (sw/Matmul.py)\<close>

record FP8MatrixMultiplier =
  mm_format :: string
  mm_exp_bit :: nat
  mm_mant_bit :: nat
  mm_adder :: Adder
  mm_multiplier :: Multiplier

definition FP8MatrixMultiplier_init :: "string \<Rightarrow> error + FP8MatrixMultiplier" where
  "FP8MatrixMultiplier_init format =
     bind_err (get_format_params format) (\<lambda>(exp_bit, mant_bit, _).
     bind_err (Adder_init format) (\<lambda>adder.
     bind_err (Multiplier_init format True) (\<lambda>multiplier.
       Inr \<lparr>mm_format = format, mm_exp_bit = exp_bit, mm_mant_bit = mant_bit,
            mm_adder = adder, mm_multiplier = multiplier\<rparr>)))"

definition get_flag :: "FP8MatrixMultiplier \<Rightarrow> string \<Rightarrow> error + string" where
  "get_flag self val_bin =
     bind_err (int_base2 val_bin) (\<lambda>n.
     bind_err (decode n (mm_format self) None) (\<lambda>(_, _, _, _, flag). Inr flag))"

text \<open>\<open>flag in ("infinity", "NaN")\<close>.\<close>

definition inf_or_nan :: "string \<Rightarrow> bool" where
  "inf_or_nan flag = (flag = ''infinity'' \<or> flag = ''NaN'')"

text \<open>
  \<open>get_flag\<close> of a product: \<open>int(x, 2)\<close> raises \<open>TypeError\<close> when \<open>x\<close> is a float.
\<close>

definition get_flag_product :: "FP8MatrixMultiplier \<Rightarrow> product \<Rightarrow> error + string" where
  "get_flag_product self p =
     (case p of FloatOut _ \<Rightarrow> Inl TypeError | BitsOut bits \<Rightarrow> get_flag self bits)"

text \<open>
  The three MAC steps. Each takes the two operands and the accumulator as strings and
  returns a string: a bit pattern or a sentinel. The warnings of the source are
  diagnostics and are not modelled. The three steps differ in the multiplication they
  call and in the strings they return on failure, which are the second to fourth
  arguments of \<open>mac_step\<close>.
\<close>

definition mac_step ::
  "(Multiplier \<Rightarrow> string \<Rightarrow> string \<Rightarrow> error + product) \<Rightarrow> string \<Rightarrow> string \<Rightarrow> string \<Rightarrow>
   FP8MatrixMultiplier \<Rightarrow> string \<Rightarrow> string \<Rightarrow> string \<Rightarrow> error + string" where
  "mac_step mul input_fail product_fail accumulation_fail self value_a value_b prod_t_1 =
     (if value_a = ''pass'' \<or> value_b = ''pass'' \<or> prod_t_1 = ''pass'' then Inr ''pass''
      else
        bind_err (get_flag self value_a) (\<lambda>flag_a.
        bind_err (get_flag self value_b) (\<lambda>flag_b.
          if inf_or_nan flag_a \<or> inf_or_nan flag_b then Inr input_fail
          else
            bind_err (mul (mm_multiplier self) value_a value_b) (\<lambda>prod_t.
            bind_err (get_flag_product self prod_t) (\<lambda>flag_prod.
              if inf_or_nan flag_prod then Inr product_fail
              else
                bind_err (case prod_t of
                            FloatOut _ \<Rightarrow> Inl TypeError
                          | BitsOut bits \<Rightarrow> fp_bin_adder (mm_adder self) prod_t_1 bits)
                  (\<lambda>result.
                bind_err (get_flag self result) (\<lambda>flag_result.
                  if inf_or_nan flag_result then Inr accumulation_fail
                  else Inr result)))))))"

definition fasa_mac_unit ::
  "FP8MatrixMultiplier \<Rightarrow> string \<Rightarrow> string \<Rightarrow> string \<Rightarrow> error + string" where
  "fasa_mac_unit = mac_step FASA ''pass'' ''pass'' ''pass''"

definition mac_unit ::
  "FP8MatrixMultiplier \<Rightarrow> string \<Rightarrow> string \<Rightarrow> string \<Rightarrow> error + string" where
  "mac_unit = mac_step multiply ''pass'' ''pass'' ''pass''"

definition lmul_mac_unit ::
  "FP8MatrixMultiplier \<Rightarrow> string \<Rightarrow> string \<Rightarrow> string \<Rightarrow> error + string" where
  "lmul_mac_unit = mac_step L_Mul ''input pass'' ''product pass'' ''accumulation pass''"

text \<open>
  The inner loop of the three matrix products over \<open>k\<close>: the operands of one output
  cell are encoded and fed to the MAC step in index order, from the accumulator
  \<open>dot_product\<close>.
\<close>

fun dot_loop ::
  "(FP8MatrixMultiplier \<Rightarrow> string \<Rightarrow> string \<Rightarrow> string \<Rightarrow> error + string) \<Rightarrow>
   FP8MatrixMultiplier \<Rightarrow> (pyfloat \<times> pyfloat) list \<Rightarrow> string \<Rightarrow> error + string" where
  "dot_loop mac self [] dot_product = Inr dot_product"
| "dot_loop mac self ((a, b) # rest) dot_product =
     bind_err (encode a (mm_format self)) (\<lambda>value_a_str.
     bind_err (encode b (mm_format self)) (\<lambda>value_b_str.
     bind_err (mac self value_a_str value_b_str dot_product) (\<lambda>next_t.
       dot_loop mac self rest next_t)))"

section \<open>The public operations\<close>

text \<open>
  The operations of the engine as its callers use them (the drivers in sw/test.py and
  the \<open>__main__\<close> blocks): an object is built for a format name and a method is
  called on it; a bit string is decoded through \<open>int(bits, 2)\<close>.
\<close>

definition valid_format :: "string \<Rightarrow> bool" where
  "valid_format fmt = (fmt \<in> set [''e2m5'', ''e3m4'', ''e4m3'', ''e5m2''])"

text \<open>A packed bit pattern: eight characters, each \<open>0\<close> or \<open>1\<close>.\<close>

definition bits8 :: "string \<Rightarrow> bool" where
  "bits8 s = (length s = 8 \<and> list_all is_bit s)"

definition fp_add :: "string \<Rightarrow> string \<Rightarrow> string \<Rightarrow> error + string" where
  "fp_add fmt a_bits b_bits =
     bind_err (Adder_init fmt) (\<lambda>adder. fp_bin_adder adder a_bits b_bits)"

definition value_of :: "string \<Rightarrow> string \<Rightarrow> error + pyfloat" where
  "value_of fmt bits =
     bind_err (int_base2 bits) (\<lambda>n.
     bind_err (decode n fmt None) (\<lambda>(v, _, _, _, _). Inr v))"

definition flag_of :: "string \<Rightarrow> string \<Rightarrow> error + string" where
  "flag_of fmt bits =
     bind_err (int_base2 bits) (\<lambda>n.
     bind_err (decode n fmt None) (\<lambda>(_, _, _, _, flag). Inr flag))"

definition multiply_exact :: "string \<Rightarrow> bool \<Rightarrow> string \<Rightarrow> string \<Rightarrow> error + product" where
  "multiply_exact fmt bin_output a_bits b_bits =
     bind_err (Multiplier_init fmt bin_output) (\<lambda>m. multiply m a_bits b_bits)"

definition multiply_lmul :: "string \<Rightarrow> bool \<Rightarrow> string \<Rightarrow> string \<Rightarrow> error + product" where
  "multiply_lmul fmt bin_output a_bits b_bits =
     bind_err (Multiplier_init fmt bin_output) (\<lambda>m. L_Mul m a_bits b_bits)"

definition multiply_fasa :: "string \<Rightarrow> bool \<Rightarrow> string \<Rightarrow> string \<Rightarrow> error + product" where
  "multiply_fasa fmt bin_output a_bits b_bits =
     bind_err (Multiplier_init fmt bin_output) (\<lambda>m. FASA m a_bits b_bits)"

text \<open>One MAC step of each kind, on an engine built for the format.\<close>

definition mac_exact :: "string \<Rightarrow> string \<Rightarrow> string \<Rightarrow> string \<Rightarrow> error + string" where
  "mac_exact fmt a_bits b_bits acc =
     bind_err (FP8MatrixMultiplier_init fmt) (\<lambda>eng. mac_unit eng a_bits b_bits acc)"

definition mac_fasa :: "string \<Rightarrow> string \<Rightarrow> string \<Rightarrow> string \<Rightarrow> error + string" where
  "mac_fasa fmt a_bits b_bits acc =
     bind_err (FP8MatrixMultiplier_init fmt) (\<lambda>eng. fasa_mac_unit eng a_bits b_bits acc)"

definition mac_lmul :: "string \<Rightarrow> string \<Rightarrow> string \<Rightarrow> string \<Rightarrow> error + string" where
  "mac_lmul fmt a_bits b_bits acc =
     bind_err (FP8MatrixMultiplier_init fmt) (\<lambda>eng. lmul_mac_unit eng a_bits b_bits acc)"

section \<open>Fields of a packed pattern\<close>

text \<open>
  The three fields of a packed pattern as numbers: the sign bit, the exponent field of
  \<open>E\<close> bits and the mantissa field of the remaining bits. The classification and the
  value that \<open>decode\<close> computes are functions of these fields (\<open>decode_bits8\<close>
  below); \<open>signed s x\<close> is \<open>x\<close> with the sign bit \<open>s\<close> applied as the source does,
  by negation.
\<close>

definition sign_field :: "string \<Rightarrow> int" where
  "sign_field a = bit_of (hd a)"

definition exp_field :: "nat \<Rightarrow> string \<Rightarrow> int" where
  "exp_field E a = bits_val (take E (drop 1 a))"

definition man_field :: "nat \<Rightarrow> string \<Rightarrow> int" where
  "man_field E a = bits_val (drop (1 + E) a)"

definition classify :: "nat \<Rightarrow> int \<Rightarrow> int \<Rightarrow> string" where
  "classify E e m =
     (if e = 0 then (if m = 0 then ''zero'' else ''denormalized'')
      else if e = 2 ^ E - 1 then (if m = 0 then ''infinity'' else ''NaN'')
      else ''normalized'')"

definition signed :: "int \<Rightarrow> rat \<Rightarrow> pyfloat" where
  "signed s x = (if s = 1 then fneg (Fin x) else Fin x)"

definition field_value :: "nat \<Rightarrow> nat \<Rightarrow> int \<Rightarrow> int \<Rightarrow> int \<Rightarrow> int \<Rightarrow> pyfloat" where
  "field_value E M B s e m =
     (if e = 0 then signed s (of_int m / 2 ^ M * pow2 (1 - B))
      else if e = 2 ^ E - 1 then (if m = 0 then (if s = 1 then NegInf else PosInf) else NaN)
      else signed s ((1 + of_int m / 2 ^ M) * pow2 (e - B)))"

text \<open>The patterns that \<open>fp_bin_adder\<close> returns for a NaN and for an infinity.\<close>

definition nan_bits :: "nat \<Rightarrow> nat \<Rightarrow> string" where
  "nan_bits E M = ''0'' @ rep CHR ''1'' E @ rep CHR ''0'' (M - 1) @ ''1''"

definition inf_bits :: "nat \<Rightarrow> nat \<Rightarrow> int \<Rightarrow> string" where
  "inf_bits E M s = bin_digits (nat s) @ rep CHR ''1'' E @ rep CHR ''0'' M"

text \<open>
  What \<open>_em_cul\<close> computes from the fields of a packed pattern (\<open>em_cul_bits8\<close>
  below): the exponent value, \<open>1 - bias\<close> for an all-zero exponent field, and the
  mantissa fraction, which for an all-zero exponent field is the fraction minus one, so
  that \<open>1 + fraction\<close> carries no implicit leading one.
\<close>

definition exp_value :: "nat \<Rightarrow> int \<Rightarrow> string \<Rightarrow> int" where
  "exp_value E B a = (if exp_field E a = 0 then 1 - B else exp_field E a - B)"

definition man_fraction :: "nat \<Rightarrow> nat \<Rightarrow> string \<Rightarrow> rat" where
  "man_fraction E M a =
     of_int (man_field E a) / 2 ^ M - (if exp_field E a = 0 then 1 else 0)"

section \<open>Bit strings and their fields\<close>

lemma bind_err_Inr [simp]: "bind_err (Inr v) f = f v"
  by (simp add: bind_err_def)

lemma bind_err_Inl [simp]: "bind_err (Inl e) f = Inl e"
  by (simp add: bind_err_def)

lemma pow2_pos [simp]: "0 < pow2 e"
  by (simp add: pow2_def)

lemma pow2_nonzero [simp]: "pow2 e \<noteq> 0"
  by (simp add: pow2_def)

lemma valid_format_params:
  assumes "valid_format fmt"
  obtains E M where "get_format_params fmt = Inr (E, M, 2 ^ (E - 1) - 1)"
    and "E + M = 7" and "2 \<le> E" and "2 \<le> M"
  using assms
  by (auto simp: valid_format_def get_format_params_def FORMATS_def)

lemma get_format_params_shape:
  assumes "get_format_params fmt = Inr (E, M, B)"
  shows "E + M = 7 \<and> 2 \<le> E \<and> 2 \<le> M \<and> B = 2 ^ (E - 1) - 1 \<and> valid_format fmt"
  using assms
  by (auto simp: valid_format_def get_format_params_def FORMATS_def split: if_splits)

lemma bits_val_append:
  "bits_val (xs @ ys) = bits_val xs * 2 ^ length ys + bits_val ys"
  by (induction xs) (simp_all add: power_add algebra_simps)

lemma bit_of_range: "0 \<le> bit_of c \<and> bit_of c \<le> 1"
  by (simp add: bit_of_def)

lemma bits_val_nonneg: "0 \<le> bits_val xs"
  by (induction xs) (simp_all add: bit_of_def)

lemma bits_val_less: "bits_val xs < 2 ^ length xs"
proof (induction xs)
  case Nil
  show ?case by simp
next
  case (Cons c cs)
  have "bit_of c * 2 ^ length cs \<le> 1 * 2 ^ length cs"
    by (rule mult_right_mono) (simp_all add: bit_of_def)
  with Cons show ?case
    unfolding bits_val.simps length_Cons power_Suc by linarith
qed

lemma int_base2_bits:
  "xs \<noteq> [] \<Longrightarrow> list_all is_bit xs \<Longrightarrow> int_base2 xs = Inr (bits_val xs)"
  by (simp add: int_base2_def)

lemma bits8_split:
  assumes "bits8 a" and "E + M = 7"
  shows "a = hd a # take E (drop 1 a) @ drop (1 + E) a"
    and "length (take E (drop 1 a)) = E"
    and "length (drop (1 + E) a) = M"
    and "is_bit (hd a)"
    and "list_all is_bit (take E (drop 1 a))"
    and "list_all is_bit (drop (1 + E) a)"
proof -
  from assms(1) have len: "length a = 8" and bits: "list_all is_bit a"
    by (simp_all add: bits8_def)
  then obtain c cs where a: "a = c # cs" by (cases a) auto
  show "a = hd a # take E (drop 1 a) @ drop (1 + E) a"
    by (simp add: a)
  show "length (take E (drop 1 a)) = E" using len assms(2) by (simp add: a)
  show "length (drop (1 + E) a) = M" using len assms(2) by (simp add: a)
  show "is_bit (hd a)" using bits by (simp add: a)
  show "list_all is_bit (take E (drop 1 a))"
    using bits by (auto simp: a list_all_iff dest: in_set_takeD)
  show "list_all is_bit (drop (1 + E) a)"
    using bits by (auto simp: a list_all_iff dest: in_set_dropD)
qed

lemma sign_field_range: "sign_field a = 0 \<or> sign_field a = 1"
  by (simp add: sign_field_def bit_of_def)

lemma fields_range:
  assumes "bits8 a" and "E + M = 7"
  shows "0 \<le> exp_field E a" "exp_field E a < 2 ^ E" "0 \<le> man_field E a" "man_field E a < 2 ^ M"
  using bits8_split(2,3) [OF assms] bits_val_less [of "take E (drop 1 a)"]
    bits_val_less [of "drop (1 + E) a"]
  by (simp_all add: exp_field_def man_field_def bits_val_nonneg)

lemma bits_val_fields:
  assumes "bits8 a" and "E + M = 7"
  shows "bits_val a = sign_field a * 2 ^ 7 + exp_field E a * 2 ^ M + man_field E a"
proof -
  have "bits_val a = bits_val (hd a # take E (drop 1 a) @ drop (1 + E) a)"
    using bits8_split(1) [OF assms] by simp
  also have "\<dots> = sign_field a * 2 ^ 7 + exp_field E a * 2 ^ M + man_field E a"
    using bits8_split(2,3) [OF assms] assms(2)
    by (simp add: bits_val_append sign_field_def exp_field_def man_field_def)
  finally show ?thesis .
qed

lemma decode_fields_bits8:
  assumes "bits8 a" and "E + M = 7" and "1 \<le> E" and "1 \<le> M"
  shows "decode_fields E a = Inr (sign_field a, exp_field E a, man_field E a)"
proof -
  from assms(1) obtain c cs where a: "a = c # cs" by (cases a) (auto simp: bits8_def)
  have ne1: "take E (drop 1 a) \<noteq> []" using bits8_split(2) [OF assms(1,2)] assms(3) by auto
  have ne2: "drop (1 + E) a \<noteq> []" using bits8_split(3) [OF assms(1,2)] assms(4) by auto
  have 1: "int_base2 (take E (drop 1 a)) = Inr (exp_field E a)"
    using int_base2_bits [OF ne1 bits8_split(5) [OF assms(1,2)]] by (simp add: exp_field_def)
  have 2: "int_base2 (drop (1 + E) a) = Inr (man_field E a)"
    using int_base2_bits [OF ne2 bits8_split(6) [OF assms(1,2)]] by (simp add: man_field_def)
  show ?thesis
    unfolding decode_fields_def using 1 2
    by (simp add: a sign_field_def bit_of_def)
qed

lemma and_low_mask: "(x::int) AND (push_bit k 1 - 1) = x mod 2 ^ k"
  by (simp add: push_bit_of_1 flip: mask_eq_exp_minus_1 take_bit_eq_mask take_bit_eq_mod)

lemma and_low_mask2: "(x::int) AND (2 ^ k - 1) = x mod 2 ^ k"
  using and_low_mask [of x k] by (simp add: push_bit_of_1)

lemma and_255: "(x::int) AND 255 = x mod 2 ^ 8"
  using and_low_mask [of x 8] by (simp add: push_bit_of_1)

lemma and_1: "(x::int) AND 1 = x mod 2"
  by (simp add: and_one_eq)

lemma split_fields_int:
  fixes s e m :: int
  assumes "s = 0 \<or> s = 1" "0 \<le> e" "e < 2 ^ E" "0 \<le> m" "m < 2 ^ M"
  defines "n \<equiv> s * 2 ^ (E + M) + e * 2 ^ M + m"
  shows "n mod 2 ^ M = m" "(n div 2 ^ M) mod 2 ^ E = e" "(n div 2 ^ (E + M)) mod 2 = s"
    "0 \<le> n" "n < 2 ^ (E + M + 1)"
proof -
  have n1: "n = (s * 2 ^ E + e) * 2 ^ M + m"
    by (simp add: n_def power_add algebra_simps)
  show m: "n mod 2 ^ M = m"
    using assms(4,5) by (simp add: n1)
  have d1: "n div 2 ^ M = s * 2 ^ E + e"
    using assms(4,5) by (simp add: n1 div_mult_self3)
  show "(n div 2 ^ M) mod 2 ^ E = e"
    using assms(2,3) by (simp add: d1)
  have em: "0 \<le> e * 2 ^ M + m" "e * 2 ^ M + m < 2 ^ (E + M)"
  proof -
    show "0 \<le> e * 2 ^ M + m" using assms(2,4) by simp
    have "e + 1 \<le> 2 ^ E" using assms(3) by simp
    then have "(e + 1) * 2 ^ M \<le> 2 ^ E * 2 ^ M"
      by (rule mult_right_mono) simp
    then show "e * 2 ^ M + m < 2 ^ (E + M)"
      using assms(5) by (simp add: power_add algebra_simps)
  qed
  have d2: "n div 2 ^ (E + M) = s"
    using em by (simp add: n_def add.assoc div_mult_self3)
  show "(n div 2 ^ (E + M)) mod 2 = s"
    using assms(1) by (auto simp: d2)
  have p: "0 < (2::int) ^ (E + M)" by simp
  have n2: "n = s * 2 ^ (E + M) + (e * 2 ^ M + m)" by (simp add: n_def)
  show "0 \<le> n" using em(1) assms(1) p unfolding n2 by auto
  show "n < 2 ^ (E + M + 1)" using em(2) assms(1) p unfolding n2 by (auto simp del: zero_less_power)
qed

lemma bits_val_raw_fields:
  assumes "bits8 a" and "E + M = 7"
  defines "n \<equiv> bits_val a"
  shows "0 \<le> n" "n \<le> 255" "n AND 255 = n"
    "drop_bit (E + M) n AND 1 = sign_field a"
    "drop_bit M n AND (push_bit E 1 - 1) = exp_field E a"
    "n AND (push_bit M 1 - 1) = man_field E a"
proof -
  note r = fields_range [OF assms(1,2)]
  have n: "n = sign_field a * 2 ^ (E + M) + exp_field E a * 2 ^ M + man_field E a"
    unfolding n_def using bits_val_fields [OF assms(1,2)] assms(2) by simp
  note f = split_fields_int [OF sign_field_range [of a] r, folded n]
  show "0 \<le> n" by (rule f(4))
  show le: "n \<le> 255" using f(5) assms(2) by simp
  show "n AND 255 = n" using f(4) le by (simp add: and_255)
  show "drop_bit (E + M) n AND 1 = sign_field a"
    using f(3) by (simp add: and_1 drop_bit_eq_div)
  show "drop_bit M n AND (push_bit E 1 - 1) = exp_field E a"
    using f(2) by (simp add: and_low_mask2 drop_bit_eq_div push_bit_of_1)
  show "n AND (push_bit M 1 - 1) = man_field E a"
    using f(1) by (simp add: and_low_mask2 push_bit_of_1)
qed

lemma int_base2_bits8: "bits8 a \<Longrightarrow> int_base2 a = Inr (bits_val a)"
  by (rule int_base2_bits) (auto simp: bits8_def)

lemma decode_bits8:
  assumes "get_format_params fmt = Inr (E, M, B)" and "bits8 a"
  shows "\<exists>ex fr sg. decode (bits_val a) fmt None =
      Inr (field_value E M B (sign_field a) (exp_field E a) (man_field E a), ex, fr, sg,
           classify E (exp_field E a) (man_field E a))"
proof -
  have EM: "E + M = 7" using get_format_params_shape [OF assms(1)] by simp
  note f = bits_val_raw_fields [OF assms(2) EM, unfolded push_bit_of_1]
  show ?thesis
    unfolding decode_def using f(1,2)
    by (simp add: assms(1) f(3-6) Let_def classify_def field_value_def signed_def
        push_bit_of_1)
qed

lemma flag_of_bits8:
  assumes "get_format_params fmt = Inr (E, M, B)" and "bits8 a"
  shows "flag_of fmt a = Inr (classify E (exp_field E a) (man_field E a))"
  using decode_bits8 [OF assms] by (auto simp: flag_of_def int_base2_bits8 [OF assms(2)])

lemma value_of_bits8:
  assumes "get_format_params fmt = Inr (E, M, B)" and "bits8 a"
  shows "value_of fmt a = Inr (field_value E M B (sign_field a) (exp_field E a) (man_field E a))"
  using decode_bits8 [OF assms] by (auto simp: value_of_def int_base2_bits8 [OF assms(2)])

lemma Adder_init_valid:
  "get_format_params fmt = Inr (E, M, B) \<Longrightarrow>
   Adder_init fmt = Inr \<lparr>adder_format = fmt, adder_e_bits = E, adder_m_bits = M\<rparr>"
  by (simp add: Adder_init_def)

lemma fp_add_bits8:
  assumes "get_format_params fmt = Inr (E, M, B)" and "bits8 a" and "bits8 b"
  shows "fp_add fmt a b =
    Inr (let sa = sign_field a; ea = exp_field E a; ma = man_field E a;
             sb = sign_field b; eb = exp_field E b; mb = man_field E b
         in if classify E ea ma = ''NaN'' \<or> classify E eb mb = ''NaN'' then nan_bits E M
            else if classify E ea ma = ''infinity'' \<and> classify E eb mb = ''infinity'' then
              (if sa \<noteq> sb then nan_bits E M else inf_bits E M sa)
            else if classify E ea ma = ''infinity'' then inf_bits E M sa
            else if classify E eb mb = ''infinity'' then inf_bits E M sb
            else if classify E ea ma = ''zero'' then b
            else if classify E eb mb = ''zero'' then a
            else fp_add_finite E M (sa, ea, ma) (sb, eb, mb))"
proof -
  note sh = get_format_params_shape [OF assms(1)]
  have EM: "E + M = 7" "1 \<le> E" "1 \<le> M" "0 < M" using sh by simp_all
  have "(1::int) < 2 ^ E"
    using EM(2) by (intro one_less_power) simp_all
  then have pw: "(2::int) ^ E \<noteq> 1" by simp
  show ?thesis
    unfolding fp_add_def Adder_init_valid [OF assms(1)] fp_bin_adder_def
    by (simp add: decode_fields_bits8 [OF assms(2) EM(1-3)]
        decode_fields_bits8 [OF assms(3) EM(1-3)] Let_def classify_def nan_bits_def
        inf_bits_def push_bit_of_1 EM(4) pw)
qed

lemma classify_cases:
  "classify E e m = ''zero'' \<longleftrightarrow> e = 0 \<and> m = 0"
  "classify E e m = ''NaN'' \<longleftrightarrow> e \<noteq> 0 \<and> e = 2 ^ E - 1 \<and> m \<noteq> 0"
  "classify E e m = ''infinity'' \<longleftrightarrow> e \<noteq> 0 \<and> e = 2 ^ E - 1 \<and> m = 0"
  by (auto simp: classify_def)

lemma signed_not_inf [simp]:
  "signed s x \<noteq> PosInf" "signed s x \<noteq> NegInf" "signed s x \<noteq> NaN"
  by (auto simp: signed_def)

lemma field_value_inf:
  "field_value E M B s e m = PosInf \<longleftrightarrow> classify E e m = ''infinity'' \<and> s \<noteq> 1"
  "field_value E M B s e m = NegInf \<longleftrightarrow> classify E e m = ''infinity'' \<and> s = 1"
  by (auto simp: field_value_def classify_def)

lemma special_patterns:
  "flag_of ''e2m5'' (nan_bits 2 5) = Inr ''NaN''"
  "flag_of ''e3m4'' (nan_bits 3 4) = Inr ''NaN''"
  "flag_of ''e4m3'' (nan_bits 4 3) = Inr ''NaN''"
  "flag_of ''e5m2'' (nan_bits 5 2) = Inr ''NaN''"
  "value_of ''e2m5'' (inf_bits 2 5 0) = Inr PosInf"
  "value_of ''e3m4'' (inf_bits 3 4 0) = Inr PosInf"
  "value_of ''e4m3'' (inf_bits 4 3 0) = Inr PosInf"
  "value_of ''e5m2'' (inf_bits 5 2 0) = Inr PosInf"
  by code_simp+

lemma special_patterns_fmt:
  assumes "get_format_params fmt = Inr (E, M, B)"
  shows "flag_of fmt (nan_bits E M) = Inr ''NaN''"
    and "value_of fmt (inf_bits E M 0) = Inr PosInf"
  using assms special_patterns
  by (auto simp: get_format_params_def FORMATS_def split: if_splits)

lemma fp_add_nan_result:
  assumes p: "get_format_params fmt = Inr (E, M, B)" and "bits8 a" and "bits8 b"
    and "flag_of fmt a = Inr ''NaN'' \<or> flag_of fmt b = Inr ''NaN''
      \<or> (value_of fmt a = Inr PosInf \<and> value_of fmt b = Inr NegInf)
      \<or> (value_of fmt a = Inr NegInf \<and> value_of fmt b = Inr PosInf)"
  shows "fp_add fmt a b = Inr (nan_bits E M)"
proof -
  note fa = flag_of_bits8 [OF p assms(2)] and fb = flag_of_bits8 [OF p assms(3)]
    and va = value_of_bits8 [OF p assms(2)] and vb = value_of_bits8 [OF p assms(3)]
  show ?thesis
    unfolding fp_add_bits8 [OF p assms(2,3)] using assms(4)
    by (auto simp: fa fb va vb Let_def field_value_inf classify_cases)
qed

subsection \<open>Unpacking in the multiplier\<close>

lemma Multiplier_init_valid:
  "get_format_params fmt = Inr (E, M, B) \<Longrightarrow>
   Multiplier_init fmt bo =
     Inr \<lparr>mul_fmt = fmt, mul_exp_bits = E, mul_mant_bits = M, mul_bias = B,
          mul_adder = \<lparr>adder_format = fmt, adder_e_bits = E, adder_m_bits = M\<rparr>,
          mul_bin_output = bo\<rparr>"
  by (simp add: Multiplier_init_def Adder_init_def)

lemma int_dec_char_bit: "is_bit c \<Longrightarrow> int_dec_char c = Inr (bit_of c)"
  by (auto simp: is_bit_def int_dec_char_def bit_of_def)

lemma em_loop_upt:
  assumes "n \<le> length man" and "list_all is_bit man"
  shows "em_loop man [i..<n] m = Inr (m + (\<Sum>j = i..<n. of_int (bit_of (man ! j)) / 2 ^ (j + 1)))"
  using assms
proof (induction "n - i" arbitrary: i m)
  case 0
  then show ?case by simp
next
  case (Suc k)
  then have lt: "i < n" and k: "k = n - Suc i" by simp_all
  have bit: "is_bit (man ! i)"
    using Suc.prems lt by (simp add: list_all_length)
  have 1: "int_base2 [man ! i] = Inr (bit_of (man ! i))"
    using bit by (simp add: int_base2_def)
  have "em_loop man [i..<n] m = em_loop man [Suc i..<n] (m + of_int (bit_of (man ! i)) / 2 ^ (i + 1))"
    using lt Suc.prems(1) by (simp add: upt_rec [of i n] 1)
  also have "\<dots> = Inr (m + of_int (bit_of (man ! i)) / 2 ^ (i + 1)
      + (\<Sum>j = Suc i..<n. of_int (bit_of (man ! j)) / 2 ^ (j + 1)))"
    by (rule Suc.hyps(1) [OF k Suc.prems])
  also have "\<dots> = Inr (m + (\<Sum>j = i..<n. of_int (bit_of (man ! j)) / 2 ^ (j + 1)))"
    using lt by (simp add: sum.atLeast_Suc_lessThan [of i n])
  finally show ?case .
qed

lemma bits_val_fraction:
  "(\<Sum>j = 0..<length xs. rat_of_int (bit_of (xs ! j)) / 2 ^ (j + 1))
     = of_int (bits_val xs) / 2 ^ length xs"
proof (induction xs)
  case Nil
  show ?case by simp
next
  case (Cons c cs)
  have "(\<Sum>j = 0..<length (c # cs). rat_of_int (bit_of ((c # cs) ! j)) / 2 ^ (j + 1))
      = of_int (bit_of c) / 2 + (\<Sum>j = 0..<length cs. rat_of_int (bit_of (cs ! j)) / 2 ^ (j + 1)) / 2"
    by (simp add: sum.atLeast0_lessThan_Suc_shift sum_divide_distrib del: sum.op_ivl_Suc)
  also have "\<dots> = of_int (bit_of c) / 2 + of_int (bits_val cs) / 2 ^ length cs / 2"
    by (simp only: Cons.IH)
  also have "\<dots> = of_int (bits_val (c # cs)) / 2 ^ length (c # cs)"
    by (simp add: field_simps)
  finally show ?case .
qed

lemma bits_val_zero_iff:
  "list_all is_bit xs \<Longrightarrow> bits_val xs = 0 \<longleftrightarrow> xs = replicate (length xs) CHR ''0''"
proof (induction xs)
  case Nil
  show ?case by simp
next
  case (Cons c cs)
  have nn: "0 \<le> bits_val cs" by (rule bits_val_nonneg)
  have p: "0 < (2::int) ^ length cs" by simp
  from Cons.prems have c: "c = CHR ''0'' \<or> c = CHR ''1''"
    by (simp add: is_bit_def)
  from Cons.prems have cs: "list_all is_bit cs"
    by simp
  show ?case
  proof (cases "c = CHR ''1''")
    case True
    then have "bits_val (c # cs) = 2 ^ length cs + bits_val cs" by (simp add: bit_of_def)
    with nn p have "bits_val (c # cs) \<noteq> 0" by linarith
    with True show ?thesis by simp
  next
    case False
    with c have "c = CHR ''0''" by simp
    then show ?thesis using Cons.IH [OF cs] by (simp add: bit_of_def)
  qed
qed

lemma format_bin_zero: "1 \<le> w \<Longrightarrow> format_bin w 0 = replicate w CHR ''0''"
  by (cases w) (simp_all add: format_bin_def bin_digits.simps [of 0] rep_def
      replicate_append_same)

lemma em_cul_bits:
  assumes "length ex = E" and "1 \<le> E" and "list_all is_bit ex"
    and "length mn = M" and "list_all is_bit mn"
    and "mul_exp_bits self = E" and "mul_mant_bits self = M" and "mul_bias self = B"
  shows "em_cul self ex mn =
     Inr (if bits_val ex = 0 then 1 - B else bits_val ex - B,
          of_int (bits_val mn) / 2 ^ M - (if bits_val ex = 0 then 1 else 0))"
proof -
  have z: "ex = format_bin E 0 \<longleftrightarrow> bits_val ex = 0"
    using bits_val_zero_iff [OF assms(3)] assms(1,2) by (simp add: format_bin_zero)
  have ne: "ex \<noteq> []" using assms(1,2) by auto
  have loop: "em_loop mn [0..<M] m0 = Inr (m0 + of_int (bits_val mn) / 2 ^ M)" for m0
    using em_loop_upt [of M mn 0 m0] assms(4,5) bits_val_fraction [of mn] by simp
  show ?thesis
    unfolding em_cul_def
    by (simp add: assms(6-8) z loop int_base2_bits [OF ne assms(3)])
qed

lemma unpakcing_bits8:
  assumes "bits8 a" and "mul_exp_bits self = E"
  shows "unpakcing self a = Inr (hd a, take E (drop 1 a), drop (1 + E) a)"
proof -
  from assms(1) obtain c cs where "a = c # cs" by (cases a) (auto simp: bits8_def)
  then show ?thesis by (simp add: unpakcing_def assms(2))
qed

lemma em_cul_bits8:
  assumes p: "get_format_params fmt = Inr (E, M, B)" and a: "bits8 a"
    and s: "mul_exp_bits self = E" "mul_mant_bits self = M" "mul_bias self = B"
  shows "em_cul self (take E (drop 1 a)) (drop (1 + E) a)
      = Inr (exp_value E B a, man_fraction E M a)"
proof -
  note sh = get_format_params_shape [OF p]
  have EM: "E + M = 7" "1 \<le> E" using sh by simp_all
  note sp = bits8_split [OF a EM(1)]
  show ?thesis
    using em_cul_bits [OF sp(2) EM(2) sp(5) sp(3) sp(6) s]
    by (simp add: exp_value_def man_fraction_def exp_field_def man_field_def)
qed

section \<open>Unknown format names\<close>

lemma get_format_params_invalid:
  "fmt \<notin> {''e2m5'', ''e3m4'', ''e4m3'', ''e5m2''} \<Longrightarrow> get_format_params fmt = Inl ValueError"
  by (simp add: get_format_params_def FORMATS_def)

text \<open>
  Claim C10. For a format name outside e2m5, e3m4, e4m3 and e5m2, every operation that
  takes a format fails with an error: \<open>encode\<close>, \<open>decode\<close> (whatever the input and the
  custom bias), and the construction of the Adder, of the Multiplier and of the matrix
  engine all raise \<open>ValueError\<close>. No default format is used in its place: the result is
  the error, not a value.
\<close>

theorem unknown_format_rejected:
  assumes "fmt \<notin> {''e2m5'', ''e3m4'', ''e4m3'', ''e5m2''}"
  shows "encode x fmt = Inl ValueError
       \<and> decode p fmt cb = Inl ValueError
       \<and> Adder_init fmt = Inl ValueError
       \<and> Multiplier_init fmt bo = Inl ValueError
       \<and> FP8MatrixMultiplier_init fmt = Inl ValueError"
  using get_format_params_invalid [OF assms]
  by (simp add: encode_def decode_def Adder_init_def Multiplier_init_def
      FP8MatrixMultiplier_init_def bind_err_def)

text \<open>The name e9m9 is such a format name.\<close>

theorem unknown_format_rejected_witness:
  "''e9m9'' \<notin> {''e2m5'', ''e3m4'', ''e4m3'', ''e5m2''}
   \<and> encode (Fin 1) ''e9m9'' = Inl ValueError
   \<and> decode 0 ''e9m9'' None = Inl ValueError
   \<and> Adder_init ''e9m9'' = Inl ValueError
   \<and> Multiplier_init ''e9m9'' True = Inl ValueError
   \<and> FP8MatrixMultiplier_init ''e9m9'' = Inl ValueError"
  using unknown_format_rejected [of "''e9m9''" "Fin 1" 0 None True] by simp

section \<open>The e3m4 scenario\<close>

text \<open>
  Claim C6, as amended. In format e3m4 (three exponent bits, four mantissa bits, bias 3),
  \<open>encode(0.25)\<close> is \<open>00010000\<close> and \<open>encode(-1.0)\<close> is \<open>10110000\<close>; adding
  \<open>00010000\<close> to itself gives \<open>00100000\<close>, which decodes to \<open>0.5\<close>. The pattern
  \<open>00011000\<close> decodes to \<open>0.375\<close>, and adding it to itself gives \<open>00101000\<close>, which
  decodes to \<open>0.75\<close>.
\<close>

theorem e3m4_scenario:
  "encode (Fin (1 / 4)) ''e3m4'' = Inr ''00010000''
   \<and> encode (Fin (- 1)) ''e3m4'' = Inr ''10110000''
   \<and> fp_add ''e3m4'' ''00010000'' ''00010000'' = Inr ''00100000''
   \<and> value_of ''e3m4'' ''00100000'' = Inr (Fin (1 / 2))
   \<and> value_of ''e3m4'' ''00011000'' = Inr (Fin (3 / 8))
   \<and> fp_add ''e3m4'' ''00011000'' ''00011000'' = Inr ''00101000''
   \<and> value_of ''e3m4'' ''00101000'' = Inr (Fin (3 / 4))"
  by code_simp

text \<open>
  Claim C6 as stated fails: \<open>encode(0.25)\<close> is not \<open>00011000\<close>, \<open>encode(-1.0)\<close> is not
  \<open>10101000\<close>, and the sum of \<open>00011000\<close> with itself does not decode to \<open>0.5\<close>.
\<close>

theorem e3m4_scenario_counterexample:
  "encode (Fin (1 / 4)) ''e3m4'' \<noteq> Inr ''00011000''
   \<and> encode (Fin (- 1)) ''e3m4'' \<noteq> Inr ''10101000''
   \<and> bind_err (fp_add ''e3m4'' ''00011000'' ''00011000'') (value_of ''e3m4'')
        \<noteq> Inr (Fin (1 / 2))"
  by code_simp

section \<open>The sentinel of the MAC steps\<close>

text \<open>
  Claim C3 at a concrete chain in e3m4. The first operand \<open>01110000\<close> is an infinity.
  The exact and the FASA step return the sentinel \<open>pass\<close>. The L-Mul step returns the
  string \<open>input pass\<close> instead, which the next step does not recognise: it goes on to
  add it as a bit pattern, and \<open>int\<close> raises \<open>ValueError\<close>.
\<close>

theorem lmul_mac_sentinel_diverges:
  "mac_lmul ''e3m4'' ''01110000'' ''00101000'' ''00000000'' = Inr ''input pass''
   \<and> mac_lmul ''e3m4'' ''00101000'' ''00101000'' ''input pass'' = Inl ValueError
   \<and> mac_exact ''e3m4'' ''01110000'' ''00101000'' ''00000000'' = Inr ''pass''
   \<and> mac_fasa ''e3m4'' ''01110000'' ''00101000'' ''00000000'' = Inr ''pass''"
  by code_simp

section \<open>FASA on an all-zero exponent field\<close>

text \<open>
  Claim C9 at the operands \<open>00000000\<close> and \<open>00000000\<close> in e3m4. The sum of the two
  concatenations is zero, its exponent field is the four characters \<open>0000\<close>, and
  \<open>_em_cul\<close> compares it with the three characters \<open>000\<close>: the field is not treated as
  denormal, and the product of zero and zero is \<open>2 ** -6\<close>, encoded as \<open>00000001\<close>.
\<close>

theorem fasa_zero_exponent_not_denormal:
  "multiply_fasa ''e3m4'' False ''00000000'' ''00000000'' = Inr (FloatOut (Fin (1 / 64)))
   \<and> multiply_fasa ''e3m4'' True ''00000000'' ''00000000'' = Inr (BitsOut ''00000001'')"
  by code_simp

section \<open>Special values in the floating-point adder\<close>

text \<open>
  Claim C7, as amended. For every format, every packed pattern \<open>a\<close> that classifies
  neither as infinity nor as NaN and every zero pattern \<open>z\<close> (\<open>+0\<close> or \<open>-0\<close>):
  \<open>fp_add(a, z)\<close> returns \<open>a\<close> unchanged when \<open>a\<close> is not itself a zero pattern;
  when \<open>a\<close> is a zero pattern, the first zero shortcut returns the other operand
  \<open>z\<close>.
\<close>

theorem fp_add_zero_operand:
  assumes "valid_format fmt" and "bits8 a" and "bits8 z"
    and "flag_of fmt z = Inr ''zero''"
    and "flag_of fmt a \<noteq> Inr ''infinity''" and "flag_of fmt a \<noteq> Inr ''NaN''"
  shows "fp_add fmt a z = Inr (if flag_of fmt a = Inr ''zero'' then z else a)"
proof -
  from assms(1) obtain E M where p: "get_format_params fmt = Inr (E, M, 2 ^ (E - 1) - 1)"
    by (rule valid_format_params)
  note fa = flag_of_bits8 [OF p assms(2)] and fz = flag_of_bits8 [OF p assms(3)]
  from assms(4) have z: "classify E (exp_field E z) (man_field E z) = ''zero''"
    by (simp add: fz)
  from assms(5,6) have a: "classify E (exp_field E a) (man_field E a) \<noteq> ''infinity''"
      "classify E (exp_field E a) (man_field E a) \<noteq> ''NaN''"
    by (simp_all add: fa)
  show ?thesis
    unfolding fp_add_bits8 [OF p assms(2,3)] fa using z a by (simp add: Let_def)
qed

text \<open>The normal pattern \<open>00101000\<close> plus \<open>-0\<close> in e3m4.\<close>

theorem fp_add_zero_operand_witness:
  "valid_format ''e3m4'' \<and> bits8 ''00101000'' \<and> bits8 ''10000000''
   \<and> flag_of ''e3m4'' ''10000000'' = Inr ''zero''
   \<and> flag_of ''e3m4'' ''00101000'' = Inr ''normalized''
   \<and> fp_add ''e3m4'' ''00101000'' ''10000000'' = Inr ''00101000''"
proof -
  have h: "valid_format ''e3m4''" "bits8 ''00101000''" "bits8 ''10000000''"
    "flag_of ''e3m4'' ''10000000'' = Inr ''zero''"
    "flag_of ''e3m4'' ''00101000'' = Inr ''normalized''"
    by code_simp+
  have n: "flag_of ''e3m4'' ''00101000'' \<noteq> Inr ''infinity''"
    "flag_of ''e3m4'' ''00101000'' \<noteq> Inr ''NaN''"
    by (simp_all add: h(5))
  show ?thesis
    using fp_add_zero_operand [OF h(1-4) n] h by simp
qed

text \<open>
  Claim C7 as stated fails when \<open>a\<close> is \<open>+0\<close> and \<open>z\<close> is \<open>-0\<close>: both classify as
  zero, and the sum is \<open>z\<close>, not \<open>a\<close>.
\<close>

theorem fp_add_zero_counterexample:
  "flag_of ''e3m4'' ''00000000'' = Inr ''zero''
   \<and> flag_of ''e3m4'' ''10000000'' = Inr ''zero''
   \<and> fp_add ''e3m4'' ''00000000'' ''10000000'' = Inr ''10000000''
   \<and> ''10000000'' \<noteq> ''00000000''"
  by code_simp

text \<open>
  Claim C5, as amended. For every format with \<open>E\<close> exponent bits and \<open>M\<close> mantissa
  bits, when \<open>fp_add\<close> is given at least one NaN operand, or two infinite operands of
  opposite sign, the pattern it returns is: sign \<open>0\<close>, exponent field all ones, and
  mantissa with only the lowest bit set. (It classifies as NaN, and differs from the
  NaN pattern of \<open>encode\<close>, whose mantissa has only the top bit set.)
\<close>

theorem fp_add_nan_pattern:
  assumes "get_format_params fmt = Inr (E, M, B)" and "bits8 a" and "bits8 b"
    and "flag_of fmt a = Inr ''NaN'' \<or> flag_of fmt b = Inr ''NaN''
      \<or> (value_of fmt a = Inr PosInf \<and> value_of fmt b = Inr NegInf)
      \<or> (value_of fmt a = Inr NegInf \<and> value_of fmt b = Inr PosInf)"
  shows "fp_add fmt a b
      = Inr (''0'' @ replicate E CHR ''1'' @ replicate (M - 1) CHR ''0'' @ ''1'')"
  using fp_add_nan_result [OF assms] by (simp add: nan_bits_def rep_def)

text \<open>A NaN plus zero in e3m4.\<close>

theorem fp_add_nan_pattern_witness:
  "get_format_params ''e3m4'' = Inr (3, 4, 3) \<and> bits8 ''01111000'' \<and> bits8 ''00000000''
   \<and> flag_of ''e3m4'' ''01111000'' = Inr ''NaN''
   \<and> fp_add ''e3m4'' ''01111000'' ''00000000'' = Inr ''01110001''"
proof -
  have h: "get_format_params ''e3m4'' = Inr (3, 4, 3)" "bits8 ''01111000''" "bits8 ''00000000''"
    "flag_of ''e3m4'' ''01111000'' = Inr ''NaN''"
    by code_simp+
  have "flag_of ''e3m4'' ''01111000'' = Inr ''NaN'' \<or> flag_of ''e3m4'' ''00000000'' = Inr ''NaN''
      \<or> (value_of ''e3m4'' ''01111000'' = Inr PosInf \<and> value_of ''e3m4'' ''00000000'' = Inr NegInf)
      \<or> (value_of ''e3m4'' ''01111000'' = Inr NegInf \<and> value_of ''e3m4'' ''00000000'' = Inr PosInf)"
    using h(4) by simp
  from fp_add_nan_pattern [OF h(1-3) this] show ?thesis
    using h by (simp add: numeral_eq_Suc)
qed

text \<open>
  Claim C5 as stated fails: in e3m4 the sum of the NaN \<open>01111000\<close> and zero is
  \<open>01110001\<close>, whose mantissa \<open>0001\<close> does not have the top bit set; the pattern
  with only the top mantissa bit set is \<open>01111000\<close>, the NaN of \<open>encode\<close>.
\<close>

theorem fp_add_nan_pattern_counterexample:
  "flag_of ''e3m4'' ''01111000'' = Inr ''NaN''
   \<and> fp_add ''e3m4'' ''01111000'' ''00000000'' = Inr ''01110001''
   \<and> ''01110001'' \<noteq> ''01111000''
   \<and> encode NaN ''e3m4'' = Inr ''01111000''"
  by code_simp

text \<open>
  Claim C4. For every format and all packed patterns \<open>a\<close> and \<open>b\<close>: if \<open>a\<close> or \<open>b\<close>
  classifies as NaN, \<open>fp_add\<close> returns a pattern that classifies as NaN; if one
  decodes to \<open>+inf\<close> and the other to \<open>-inf\<close>, \<open>fp_add\<close> returns a pattern that
  classifies as NaN; if both decode to \<open>+inf\<close>, \<open>fp_add\<close> returns a pattern that
  decodes to \<open>+inf\<close>.
\<close>

theorem fp_add_special_values:
  assumes "valid_format fmt" and "bits8 a" and "bits8 b"
  shows "(flag_of fmt a = Inr ''NaN'' \<or> flag_of fmt b = Inr ''NaN''
            \<longrightarrow> bind_err (fp_add fmt a b) (flag_of fmt) = Inr ''NaN'')
       \<and> (value_of fmt a = Inr PosInf \<and> value_of fmt b = Inr NegInf
            \<longrightarrow> bind_err (fp_add fmt a b) (flag_of fmt) = Inr ''NaN'')
       \<and> (value_of fmt a = Inr NegInf \<and> value_of fmt b = Inr PosInf
            \<longrightarrow> bind_err (fp_add fmt a b) (flag_of fmt) = Inr ''NaN'')
       \<and> (value_of fmt a = Inr PosInf \<and> value_of fmt b = Inr PosInf
            \<longrightarrow> bind_err (fp_add fmt a b) (value_of fmt) = Inr PosInf)"
proof -
  from assms(1) obtain E M where p: "get_format_params fmt = Inr (E, M, 2 ^ (E - 1) - 1)"
    by (rule valid_format_params)
  note sp = special_patterns_fmt [OF p]
  note nan = fp_add_nan_result [OF p assms(2,3)]
  have inf: "bind_err (fp_add fmt a b) (value_of fmt) = Inr PosInf"
    if "value_of fmt a = Inr PosInf" "value_of fmt b = Inr PosInf"
  proof -
    from that have "classify E (exp_field E a) (man_field E a) = ''infinity''"
      "sign_field a = 0"
      "classify E (exp_field E b) (man_field E b) = ''infinity''"
      using sign_field_range [of a]
      by (auto simp: value_of_bits8 [OF p assms(2)] value_of_bits8 [OF p assms(3)]
          field_value_inf)
    then have "fp_add fmt a b = Inr (inf_bits E M 0)"
      unfolding fp_add_bits8 [OF p assms(2,3)]
      using sign_field_range [of b] that
      by (auto simp: Let_def classify_cases value_of_bits8 [OF p assms(3)] field_value_inf)
    then show ?thesis by (simp add: sp)
  qed
  show ?thesis
    using nan inf by (auto simp: sp)
qed

text \<open>
  In e3m4: a NaN first, a NaN second, the two infinities in both orders, and \<open>+inf\<close>
  twice.
\<close>

theorem fp_add_special_values_witness:
  "bind_err (fp_add ''e3m4'' ''01111000'' ''00101000'') (flag_of ''e3m4'') = Inr ''NaN''
   \<and> bind_err (fp_add ''e3m4'' ''00101000'' ''11110101'') (flag_of ''e3m4'') = Inr ''NaN''
   \<and> bind_err (fp_add ''e3m4'' ''01110000'' ''11110000'') (flag_of ''e3m4'') = Inr ''NaN''
   \<and> bind_err (fp_add ''e3m4'' ''11110000'' ''01110000'') (flag_of ''e3m4'') = Inr ''NaN''
   \<and> bind_err (fp_add ''e3m4'' ''01110000'' ''01110000'') (value_of ''e3m4'') = Inr PosInf"
proof -
  have v: "valid_format ''e3m4''" by code_simp
  have b: "bits8 ''01111000''" "bits8 ''00101000''" "bits8 ''11110101''" "bits8 ''01110000''"
    "bits8 ''11110000''"
    by code_simp+
  have f: "flag_of ''e3m4'' ''01111000'' = Inr ''NaN''" "flag_of ''e3m4'' ''11110101'' = Inr ''NaN''"
    "value_of ''e3m4'' ''01110000'' = Inr PosInf" "value_of ''e3m4'' ''11110000'' = Inr NegInf"
    by code_simp+
  show ?thesis
    using fp_add_special_values [OF v b(1) b(2)] fp_add_special_values [OF v b(2) b(3)]
      fp_add_special_values [OF v b(4) b(5)] fp_add_special_values [OF v b(5) b(4)]
      fp_add_special_values [OF v b(4) b(4)] f
    by simp
qed

section \<open>The L-Mul product\<close>

text \<open>
  Claim C8. For every format and all packed patterns \<open>a\<close> and \<open>b\<close>, the real-valued
  result of \<open>multiply_lmul(a, b)\<close> is
  \<open>(-1) ** (sa xor sb) * (1 + fa + fb + 2 ** -lm) * 2 ** (ea + eb)\<close>, where \<open>ea\<close>,
  \<open>fa\<close> and \<open>eb\<close>, \<open>fb\<close> are the unpacked exponent value and mantissa fraction of the
  operands (\<open>exp_value\<close> and \<open>man_fraction\<close>: an all-zero exponent field gives the
  exponent \<open>1 - bias\<close> and no implicit one), and \<open>lm\<close> is the mantissa width when
  that is at most 3, is 3 when it is 4, and is 4 when it is 5 or more. The sign is
  applied by negation, so a zero magnitude with sign 1 is \<open>-0.0\<close>.
\<close>

theorem multiply_lmul_value:
  assumes "get_format_params fmt = Inr (E, M, B)" and "bits8 a" and "bits8 b"
  shows "multiply_lmul fmt False a b =
     Inr (FloatOut (signed (sign_field a XOR sign_field b)
       ((1 + man_fraction E M a + man_fraction E M b
           + pow2 (- (if M \<le> 3 then int M else if M = 4 then 3 else 4)))
        * pow2 (exp_value E B a + exp_value E B b))))"
proof -
  note sh = get_format_params_shape [OF assms(1)]
  have EM: "E + M = 7" using sh by simp
  let ?m = "\<lparr>mul_fmt = fmt, mul_exp_bits = E, mul_mant_bits = M, mul_bias = B,
          mul_adder = \<lparr>adder_format = fmt, adder_e_bits = E, adder_m_bits = M\<rparr>,
          mul_bin_output = False\<rparr>"
  have ua: "unpakcing ?m a = Inr (hd a, take E (drop 1 a), drop (1 + E) a)"
    by (rule unpakcing_bits8 [OF assms(2)]) simp
  have ub: "unpakcing ?m b = Inr (hd b, take E (drop 1 b), drop (1 + E) b)"
    by (rule unpakcing_bits8 [OF assms(3)]) simp
  have sa: "int_dec_char (hd a) = Inr (sign_field a)"
    using bits8_split(4) [OF assms(2) EM] by (simp add: int_dec_char_bit sign_field_def)
  have sb: "int_dec_char (hd b) = Inr (sign_field b)"
    using bits8_split(4) [OF assms(3) EM] by (simp add: int_dec_char_bit sign_field_def)
  have ea: "em_cul ?m (take E (drop 1 a)) (drop (1 + E) a)
      = Inr (exp_value E B a, man_fraction E M a)"
    by (rule em_cul_bits8 [OF assms(1,2)]) simp_all
  have eb: "em_cul ?m (take E (drop 1 b)) (drop (1 + E) b)
      = Inr (exp_value E B b, man_fraction E M b)"
    by (rule em_cul_bits8 [OF assms(1,3)]) simp_all
  show ?thesis
    unfolding multiply_lmul_def Multiplier_init_valid [OF assms(1)] L_Mul_def
      bind_err_Inr ua ub sa sb ea eb prod.case
    by (simp add: Let_def output_of_def signed_def)
qed

text \<open>
  In e3m4, the normal operand \<open>00110100\<close> (1.25) and the denormal operand
  \<open>10000110\<close>: \<open>-(1 + 1/4 - 5/8 + 1/8) * 2 ** (0 - 2)\<close>.
\<close>

theorem multiply_lmul_value_witness:
  "get_format_params ''e3m4'' = Inr (3, 4, 3) \<and> bits8 ''00110100'' \<and> bits8 ''10000110''
   \<and> multiply_lmul ''e3m4'' False ''00110100'' ''10000110'' = Inr (FloatOut (Fin (- (3 / 16))))"
proof -
  have h: "get_format_params ''e3m4'' = Inr (3, 4, 3)" "bits8 ''00110100''" "bits8 ''10000110''"
    by code_simp+
  have v: "sign_field ''00110100'' = 0" "sign_field ''10000110'' = 1"
    "man_fraction 3 4 ''00110100'' = 1 / 4" "man_fraction 3 4 ''10000110'' = - (5 / 8)"
    "exp_value 3 3 ''00110100'' = 0" "exp_value 3 3 ''10000110'' = - 2"
    by code_simp+
  show ?thesis
    using multiply_lmul_value [OF h] h by (simp add: v signed_def pow2_def)
qed

end
